theory Spec2Isabelle
  imports Complex_Main "HOL-Library.Char_ord" "HOL-Library.List_Lexorder" "HOL-Library.Log_Nat"
begin

section \<open>Errors\<close>

text \<open>
  The exceptions of \<^verbatim>\<open>src/music.py\<close> that the model keeps as values.
  \<open>CancelledError\<close> is \<^verbatim>\<open>asyncio.CancelledError\<close>.
\<close>

datatype error =
    IndexError | ValueError | ZeroDivisionError | AttributeError | CancelledError | OverflowError


section \<open>The configuration hierarchy\<close>

text \<open>
  \<^verbatim>\<open>Track\<close>, \<^verbatim>\<open>TrackList\<close>, \<^verbatim>\<open>MusicGroup\<close> as records.  Python
  attributes that share a name across classes (\<^verbatim>\<open>name\<close>, \<^verbatim>\<open>directory\<close>) carry
  a prefix for the class.  \<^verbatim>\<open>None\<close> is \<open>None\<close>.
\<close>

record track =
  t_file :: string
  start_at :: "int option"
  end_at :: "int option"

record track_list =
  tl_name :: string
  tl_directory :: "string option"
  loop :: bool
  shuffle :: bool
  tracks :: "track list"

record music_group =
  g_name :: string
  g_directory :: "string option"
  track_lists :: "track_list list"


subsection \<open>\<^verbatim>\<open>time.strptime(formatted_time, "%H:%M:%S")\<close>\<close>

text \<open>
  A time string is a Python \<^verbatim>\<open>str\<close>: a sequence of Unicode code points.
  \<open>ascii\<close> is the \<^verbatim>\<open>str\<close> of an ASCII literal.
\<close>

type_synonym codepoint = nat
type_synonym unicode = "codepoint list"

definition ascii :: "string \<Rightarrow> unicode" where
  "ascii s = map of_char s"

text \<open>
  \<^verbatim>\<open>Track._convert_formatted_time_to_ms\<close> calls the standard library's
  \<^verbatim>\<open>time.strptime\<close> with the fixed format \<^verbatim>\<open>"%H:%M:%S"\<close>.  CPython compiles the
  format into the regular expression
  \<^verbatim>\<open>(?P<H>2[0-3]|[0-1]\d|\d):(?P<M>[0-5]\d|\d):(?P<S>6[0-1]|[0-5]\d|\d)\<close>,
  matches it at the start of the string (alternatives in the order written, with
  backtracking), raises \<^verbatim>\<open>ValueError\<close> when nothing matches or when unconverted
  data remains after the match, and otherwise returns a \<^verbatim>\<open>struct_time\<close> whose
  \<^verbatim>\<open>tm_hour\<close>, \<^verbatim>\<open>tm_min\<close>, \<^verbatim>\<open>tm_sec\<close> are \<^verbatim>\<open>int\<close> of the three groups.

  In a \<^verbatim>\<open>str\<close> pattern \<^verbatim>\<open>\d\<close> matches every Unicode decimal digit (category
  Nd), and \<^verbatim>\<open>int\<close> reads every such digit by its decimal value, while a class
  such as \<^verbatim>\<open>[0-3]\<close> is a range of code points.  The table of the Unicode
  character database is not part of the source: it is the parameter \<open>dec\<close>,
  which gives the decimal value of a code point of category Nd and \<open>None\<close> for
  every other code point.
\<close>

record time_struct =
  tm_hour :: int
  tm_min :: int
  tm_sec :: int

text \<open>A character class \<^verbatim>\<open>[lo-hi]\<close>, a literal character, and \<^verbatim>\<open>\d\<close>.\<close>

definition in_class :: "char \<Rightarrow> char \<Rightarrow> codepoint \<Rightarrow> bool" where
  "in_class lo hi c = (of_char lo \<le> c \<and> c \<le> of_char hi)"

definition is_char :: "char \<Rightarrow> codepoint \<Rightarrow> bool" where
  "is_char ch c = (c = of_char ch)"

definition is_digit :: "(codepoint \<Rightarrow> nat option) \<Rightarrow> codepoint \<Rightarrow> bool" where
  "is_digit dec c = (dec c \<noteq> None)"

text \<open>\<^verbatim>\<open>int(s)\<close> on a string of decimal digits.\<close>

definition digit_value :: "(codepoint \<Rightarrow> nat option) \<Rightarrow> codepoint \<Rightarrow> int" where
  "digit_value dec c = (case dec c of Some d \<Rightarrow> int d | None \<Rightarrow> 0)"

definition int_of_digits :: "(codepoint \<Rightarrow> nat option) \<Rightarrow> unicode \<Rightarrow> int" where
  "int_of_digits dec s = foldl (\<lambda>a c. 10 * a + digit_value dec c) 0 s"

text \<open>The two-character alternatives of the three groups.\<close>

definition two_H :: "(codepoint \<Rightarrow> nat option) \<Rightarrow> codepoint \<Rightarrow> codepoint \<Rightarrow> bool" where
  "two_H dec a b = ((is_char (CHR ''2'') a \<and> in_class (CHR ''0'') (CHR ''3'') b) \<or>
                    (in_class (CHR ''0'') (CHR ''1'') a \<and> is_digit dec b))"

definition two_M :: "(codepoint \<Rightarrow> nat option) \<Rightarrow> codepoint \<Rightarrow> codepoint \<Rightarrow> bool" where
  "two_M dec a b = (in_class (CHR ''0'') (CHR ''5'') a \<and> is_digit dec b)"

definition two_S :: "(codepoint \<Rightarrow> nat option) \<Rightarrow> codepoint \<Rightarrow> codepoint \<Rightarrow> bool" where
  "two_S dec a b = ((is_char (CHR ''6'') a \<and> in_class (CHR ''0'') (CHR ''1'') b) \<or>
                    (in_class (CHR ''0'') (CHR ''5'') a \<and> is_digit dec b))"

text \<open>
  One group at the head of the input: the ways it can match, in the order the
  regular expression engine tries them (the two-character alternatives before
  \<^verbatim>\<open>\d\<close>), each with the text matched and the input left.
\<close>

fun group_matches ::
    "(codepoint \<Rightarrow> codepoint \<Rightarrow> bool) \<Rightarrow> (codepoint \<Rightarrow> nat option) \<Rightarrow> unicode
       \<Rightarrow> (unicode \<times> unicode) list" where
  "group_matches two dec (a # b # rest) =
     (if two a b then [([a, b], rest)] else []) @
     (if is_digit dec a then [([a], b # rest)] else [])"
| "group_matches two dec [a] = (if is_digit dec a then [([a], [])] else [])"
| "group_matches two dec [] = []"

fun colon_matches :: "unicode \<Rightarrow> unicode list" where
  "colon_matches (c # rest) = (if is_char (CHR '':'') c then [rest] else [])"
| "colon_matches [] = []"

text \<open>All matches of the whole expression, first match first.\<close>

definition format_matches ::
    "(codepoint \<Rightarrow> nat option) \<Rightarrow> unicode \<Rightarrow> (unicode \<times> unicode \<times> unicode \<times> unicode) list" where
  "format_matches dec s =
     concat (map (\<lambda>(h, r1).
       concat (map (\<lambda>r2.
         concat (map (\<lambda>(m, r3).
           concat (map (\<lambda>r4.
             map (\<lambda>(sec, r5). (h, m, sec, r5)) (group_matches (two_S dec) dec r4))
           (colon_matches r3)))
         (group_matches (two_M dec) dec r2)))
       (colon_matches r1)))
     (group_matches (two_H dec) dec s))"

definition strptime_HMS :: "(codepoint \<Rightarrow> nat option) \<Rightarrow> unicode \<Rightarrow> error + time_struct" where
  "strptime_HMS dec s =
     (case format_matches dec s of
        [] \<Rightarrow> Inl ValueError
      | (h, m, sec, unconverted) # _ \<Rightarrow>
          if unconverted \<noteq> [] then Inl ValueError
          else Inr \<lparr>tm_hour = int_of_digits dec h, tm_min = int_of_digits dec m,
                     tm_sec = int_of_digits dec sec\<rparr>)"


subsection \<open>\<^verbatim>\<open>Track\<close>\<close>

definition convert_formatted_time_to_ms :: "(codepoint \<Rightarrow> nat option) \<Rightarrow> unicode \<Rightarrow> error + int" where
  "convert_formatted_time_to_ms dec formatted_time =
     (case strptime_HMS dec formatted_time of
        Inl e \<Rightarrow> Inl e
      | Inr t \<Rightarrow> Inr ((tm_sec t + tm_min t * 60 + tm_hour t * 3600) * 1000))"

text \<open>
  The \<^verbatim>\<open>config\<close> of a track is a \<^verbatim>\<open>str\<close> (the file name) or a \<^verbatim>\<open>dict\<close> with
  the key \<^verbatim>\<open>"file"\<close> and the optional keys \<^verbatim>\<open>"start_at"\<close>, \<^verbatim>\<open>"end_at"\<close>.
\<close>

datatype track_config =
    FileName string
  | TrackDict string "unicode option" "unicode option"

definition convert_optional :: "(codepoint \<Rightarrow> nat option) \<Rightarrow> unicode option \<Rightarrow> error + int option" where
  "convert_optional dec t =
     (case t of
        None \<Rightarrow> Inr None
      | Some formatted_time \<Rightarrow>
          (case convert_formatted_time_to_ms dec formatted_time of
             Inl e \<Rightarrow> Inl e
           | Inr ms \<Rightarrow> Inr (Some ms)))"

fun Track_init :: "(codepoint \<Rightarrow> nat option) \<Rightarrow> track_config \<Rightarrow> error + track" where
  "Track_init dec (FileName f) = Inr \<lparr>t_file = f, start_at = None, end_at = None\<rparr>"
| "Track_init dec (TrackDict f s e) =
     (case convert_optional dec s of
        Inl err \<Rightarrow> Inl err
      | Inr start_ms \<Rightarrow>
          (case convert_optional dec e of
             Inl err \<Rightarrow> Inl err
           | Inr end_ms \<Rightarrow> Inr \<lparr>t_file = f, start_at = start_ms, end_at = end_ms\<rparr>))"


subsection \<open>\<^verbatim>\<open>TrackList\<close> and \<^verbatim>\<open>MusicGroup\<close>\<close>

text \<open>
  The configuration dictionaries as records; an optional key is an \<open>option\<close>.
  A list comprehension over constructors stops at the first one that raises.
\<close>

record track_list_config =
  tlc_name :: string
  tlc_directory :: "string option"
  tlc_loop :: "bool option"
  tlc_shuffle :: "bool option"
  tlc_tracks :: "track_config list"

record group_config =
  gc_name :: string
  gc_directory :: "string option"
  gc_sort :: "bool option"
  gc_track_lists :: "track_list_config list"

fun construct_all :: "('a \<Rightarrow> error + 'b) \<Rightarrow> 'a list \<Rightarrow> error + 'b list" where
  "construct_all f [] = Inr []"
| "construct_all f (c # cs) =
     (case f c of
        Inl e \<Rightarrow> Inl e
      | Inr x \<Rightarrow> (case construct_all f cs of Inl e \<Rightarrow> Inl e | Inr xs \<Rightarrow> Inr (x # xs)))"

definition TrackList_init ::
    "(codepoint \<Rightarrow> nat option) \<Rightarrow> track_list_config \<Rightarrow> error + track_list" where
  "TrackList_init dec config =
     (case construct_all (Track_init dec) (tlc_tracks config) of
        Inl e \<Rightarrow> Inl e
      | Inr ts \<Rightarrow>
          Inr \<lparr>tl_name = tlc_name config,
               tl_directory = tlc_directory config,
               loop = (case tlc_loop config of Some b \<Rightarrow> b | None \<Rightarrow> True),
               shuffle = (case tlc_shuffle config of Some b \<Rightarrow> b | None \<Rightarrow> True),
               tracks = ts\<rparr>)"

definition MusicGroup_init ::
    "(codepoint \<Rightarrow> nat option) \<Rightarrow> group_config \<Rightarrow> error + music_group" where
  "MusicGroup_init dec config =
     (case construct_all (TrackList_init dec) (gc_track_lists config) of
        Inl e \<Rightarrow> Inl e
      | Inr tls \<Rightarrow>
          Inr \<lparr>g_name = gc_name config,
               g_directory = gc_directory config,
               track_lists =
                 (if gc_sort config = None \<or> gc_sort config = Some True
                  then sort_key tl_name tls else tls)\<rparr>)"


section \<open>The manager\<close>

type_synonym task_id = nat
type_synonym handle = nat

text \<open>
  \<^verbatim>\<open>MusicManager\<close>.  \<^verbatim>\<open>currently_playing\<close> is the named tuple
  \<^verbatim>\<open>CurrentlyPlaying(group, track_list, task)\<close> or \<^verbatim>\<open>None\<close>; the task is named
  by its identifier.  \<^verbatim>\<open>current_player\<close> is the reference to the
  \<^verbatim>\<open>vlc.MediaPlayer\<close> object or \<^verbatim>\<open>None\<close>; the object is named by a handle.
\<close>

record manager =
  volume :: int
  directory :: "string option"
  groups :: "music_group list"
  currently_playing :: "(music_group \<times> track_list \<times> task_id) option"
  current_player :: "handle option"


text \<open>
  Python's \<^verbatim>\<open>int(x)\<close> on a number truncates toward zero.
\<close>

definition py_int :: "rat \<Rightarrow> int" where
  "py_int x = (if 0 \<le> x then \<lfloor>x\<rfloor> else \<lceil>x\<rceil>)"

record manager_config =
  mc_volume :: rat
  mc_directory :: "string option"
  mc_sort :: "bool option"
  mc_groups :: "group_config list"

definition MusicManager_init ::
    "(codepoint \<Rightarrow> nat option) \<Rightarrow> manager_config \<Rightarrow> error + manager" where
  "MusicManager_init dec config =
     (case construct_all (MusicGroup_init dec) (mc_groups config) of
        Inl e \<Rightarrow> Inl e
      | Inr gs \<Rightarrow>
          Inr \<lparr>volume = py_int (mc_volume config),
               directory = mc_directory config,
               groups =
                 (if mc_sort config = None \<or> mc_sort config = Some True
                  then sort_key g_name gs else gs),
               currently_playing = None,
               current_player = None\<rparr>)"


subsection \<open>Indexing a tuple\<close>

text \<open>
  \<^verbatim>\<open>xs[i]\<close> on a Python tuple: a negative index counts from the end, and an index
  outside \<open>[-len, len - 1]\<close> raises \<^verbatim>\<open>IndexError\<close>.
\<close>

definition getitem :: "'a list \<Rightarrow> int \<Rightarrow> error + 'a" where
  "getitem xs i =
     (let n = int (length xs); j = (if i < 0 then i + n else i)
      in if 0 \<le> j \<and> j < n then Inr (xs ! nat j) else Inl IndexError)"


subsection \<open>Directory resolution\<close>

definition get_track_list_root_directory ::
    "manager \<Rightarrow> music_group \<Rightarrow> track_list \<Rightarrow> error + string" where
  "get_track_list_root_directory self grp tlist =
     (let root_directory = (if tl_directory tlist \<noteq> None then tl_directory tlist else g_directory grp);
          root_directory = (if root_directory \<noteq> None then root_directory else directory self)
      in case root_directory of
           None \<Rightarrow> Inl ValueError
         | Some d \<Rightarrow> Inr d)"


section \<open>Binary floating point\<close>

text \<open>
  A Python \<^verbatim>\<open>float\<close> is an IEEE 754 binary64 number.  A finite one is kept as the
  rational number it denotes.  \<open>float_round\<close> rounds a rational to the nearest
  binary64 number, ties to the even significand: \<open>binade a\<close> is the exponent
  \<open>e\<close> with \<open>pow2 e \<le> a < pow2 (e + 1)\<close>, a significand has 53 bits, and the
  spacing of the numbers is never below \<open>pow2 (- 1074)\<close> (the subnormal numbers).
\<close>

definition pow2 :: "int \<Rightarrow> rat" where
  "pow2 e = (if 0 \<le> e then of_int (2 ^ nat e) else 1 / of_int (2 ^ nat (- e)))"

definition binade :: "rat \<Rightarrow> int" where
  "binade a =
     (let e = bitlen (fst (quotient_of a)) - bitlen (snd (quotient_of a))
      in if pow2 e \<le> a then e else e - 1)"

definition round_half_even :: "rat \<Rightarrow> int" where
  "round_half_even y =
     (let f = \<lfloor>y\<rfloor>; r = y - of_int f
      in if r < 1 / 2 then f else if 1 / 2 < r then f + 1 else if even f then f else f + 1)"

definition float_round :: "rat \<Rightarrow> rat" where
  "float_round x =
     (if x = 0 then 0
      else let a = \<bar>x\<bar>; q = max (binade a - 52) (- 1074)
           in sgn x * of_int (round_half_even (a / pow2 q)) * pow2 q)"

text \<open>
  The largest finite binary64 number.  A result that rounds beyond it is infinite in
  IEEE arithmetic.  Where the source computes a float it either converts an
  \<^verbatim>\<open>int\<close>, divides two \<^verbatim>\<open>int\<close>s (both raise \<^verbatim>\<open>OverflowError\<close> beyond the
  range), or passes the result on to \<^verbatim>\<open>int()\<close> in the same expression, which raises
  \<^verbatim>\<open>OverflowError\<close> on an infinity: in every case the expression ends in
  \<^verbatim>\<open>OverflowError\<close>, which \<open>to_float\<close> returns.
\<close>

definition max_float :: rat where
  "max_float = (2 ^ 53 - 1) * 2 ^ 971"

definition to_float :: "rat \<Rightarrow> error + rat" where
  "to_float x =
     (let r = float_round x in if max_float < \<bar>r\<bar> then Inl OverflowError else Inr r)"

definition float_of_int :: "int \<Rightarrow> error + rat" where
  "float_of_int k = to_float (of_int k)"

definition int_truediv :: "int \<Rightarrow> int \<Rightarrow> error + rat" where
  "int_truediv a b = (if b = 0 then Inl ZeroDivisionError else to_float (of_int a / of_int b))"

text \<open>
  The argument \<^verbatim>\<open>seconds\<close> is an \<^verbatim>\<open>int\<close> or a (finite) \<^verbatim>\<open>float\<close>;
  \<open>truediv\<close> is \<^verbatim>\<open>seconds / n_steps\<close> with an \<^verbatim>\<open>int\<close> divisor, which is
  converted to a float when the dividend is one.
\<close>

datatype number = PyInt int | PyFloat rat

fun truediv :: "number \<Rightarrow> int \<Rightarrow> error + rat" where
  "truediv (PyInt a) b = int_truediv a b"
| "truediv (PyFloat x) b =
     (if b = 0 then Inl ZeroDivisionError
      else case float_of_int b of Inl err \<Rightarrow> Inl err | Inr y \<Rightarrow> to_float (x / y))"

text \<open>
  \<^verbatim>\<open>int(current_volume - (i + 1) * step_size)\<close> (line 282): \<^verbatim>\<open>i + 1\<close> and
  \<^verbatim>\<open>current_volume\<close> are converted to floats, the product and the difference are
  rounded, and \<^verbatim>\<open>int()\<close> truncates toward zero.
\<close>

definition new_volume :: "int \<Rightarrow> rat \<Rightarrow> int \<Rightarrow> error + int" where
  "new_volume current_volume step_size i =
     (case float_of_int (i + 1) of
        Inl err \<Rightarrow> Inl err
      | Inr k \<Rightarrow>
          (case to_float (k * step_size) of
             Inl err \<Rightarrow> Inl err
           | Inr p \<Rightarrow>
               (case float_of_int current_volume of
                  Inl err \<Rightarrow> Inl err
                | Inr c \<Rightarrow>
                    (case to_float (c - p) of
                       Inl err \<Rightarrow> Inl err
                     | Inr d \<Rightarrow> Inr (py_int d)))))"


section \<open>The media engine and the coroutines\<close>

text \<open>
  The calls the source makes on the engine and on the event loop, in the order it
  makes them: the creation of a \<^verbatim>\<open>vlc.MediaPlayer\<close> for a path (the new object
  gets the next handle), \<^verbatim>\<open>audio_set_volume\<close>, \<^verbatim>\<open>play\<close>, \<^verbatim>\<open>set_time\<close>,
  \<^verbatim>\<open>stop\<close> on a handle, and \<^verbatim>\<open>await asyncio.sleep(d)\<close>.  What the engine answers
  (\<^verbatim>\<open>play\<close>, \<^verbatim>\<open>is_playing\<close>, \<^verbatim>\<open>get_time\<close>, \<^verbatim>\<open>audio_get_volume\<close>) is
  an input of the model.
\<close>

datatype effect =
    MediaPlayer handle string
  | AudioSetVolume handle int
  | Play handle
  | SetTime handle int
  | Stop handle
  | Sleep rat

text \<open>
  A coroutine runs from one \<^verbatim>\<open>await asyncio.sleep\<close> to the next.  Running it
  that far gives the new state and tells whether the coroutine is suspended (with
  its local variables), has returned, or has raised.
\<close>

datatype 'f outcome = Suspended 'f | Returned | Raised error

subsection \<open>\<^verbatim>\<open>MusicManager.set_volume\<close>\<close>

text \<open>
  The local variables of \<^verbatim>\<open>set_volume\<close> while it is suspended at the sleep of
  its loop.  \<^verbatim>\<open>step_size\<close> is a float.
\<close>

record sv_frame =
  sv_volume :: int
  sv_set_global :: bool
  sv_n_steps :: int
  sv_seconds :: number
  sv_current_volume :: int
  sv_step_size :: rat
  sv_i :: int

text \<open>
  The coroutine \<^verbatim>\<open>_play_track_list\<close> suspended: not yet started
  (\<open>Created\<close>), at the sleep after \<^verbatim>\<open>play()\<close> (\<open>Settle\<close>), inside the
  \<^verbatim>\<open>set_volume\<close> that fades in (\<open>FadeIn\<close>), at the sleep of the polling loop
  (\<open>Poll\<close>), inside the \<^verbatim>\<open>set_volume(0)\<close> of the inner handler
  (\<open>FadeOut\<close>); or ended, by returning or by raising (\<open>Done\<close>).  The loop
  variable \<^verbatim>\<open>track\<close> and the tracks the \<^verbatim>\<open>for\<close> loop has left are part
  of the frame.
\<close>

datatype frame =
    Created
  | Settle track "track list"
  | FadeIn track "track list" sv_frame
  | Poll track "track list"
  | FadeOut track "track list" sv_frame
  | Done "error option"

text \<open>
  An \<^verbatim>\<open>asyncio.Task\<close> running \<^verbatim>\<open>_play_track_list(group, track_list)\<close>:
  the arguments, the frame, and whether \<^verbatim>\<open>Task.cancel()\<close> has been requested and
  not yet delivered.
\<close>

record task =
  t_group :: music_group
  t_track_list :: track_list
  t_frame :: frame
  must_cancel :: bool

text \<open>
  Everything the coroutines share: the manager, the tasks created so far (a
  task's identifier is its position), the number of players created, and the calls
  made so far.
\<close>

record world =
  mgr :: manager
  tasks :: "task list"
  players :: nat
  trace :: "effect list"

definition emit :: "effect list \<Rightarrow> world \<Rightarrow> world" where
  "emit es w = w\<lparr>trace := trace w @ es\<rparr>"

definition set_volume_finish :: "int \<Rightarrow> bool \<Rightarrow> world \<Rightarrow> world \<times> sv_frame outcome" where
  "set_volume_finish vol set_global w =
     (if set_global then (w\<lparr>mgr := (mgr w)\<lparr>volume := vol\<rparr>\<rparr>, Returned) else (w, Returned))"

text \<open>
  One turn of \<^verbatim>\<open>for i in range(n_steps)\<close>: the body up to the sleep, or the end of
  the loop.  \<^verbatim>\<open>self.current_player\<close> is read anew in each turn.
\<close>

definition set_volume_iter :: "world \<Rightarrow> sv_frame \<Rightarrow> world \<times> sv_frame outcome" where
  "set_volume_iter w fr =
     (if sv_i fr < sv_n_steps fr then
        (case new_volume (sv_current_volume fr) (sv_step_size fr) (sv_i fr) of
           Inl err \<Rightarrow> (w, Raised err)
         | Inr v \<Rightarrow>
             (case current_player (mgr w) of
                None \<Rightarrow> (w, Raised AttributeError)
              | Some h \<Rightarrow>
                  (case truediv (sv_seconds fr) (sv_n_steps fr) of
                     Inl err \<Rightarrow> (emit [AudioSetVolume h v] w, Raised err)
                   | Inr d \<Rightarrow> (emit [AudioSetVolume h v, Sleep d] w, Suspended fr))))
      else set_volume_finish (sv_volume fr) (sv_set_global fr) w)"

definition set_volume_call ::
    "world \<Rightarrow> int \<Rightarrow> bool \<Rightarrow> bool \<Rightarrow> int \<Rightarrow> number \<Rightarrow> int \<Rightarrow> world \<times> sv_frame outcome" where
  "set_volume_call w vol set_global smooth n_steps seconds audio_get_volume =
     (case current_player (mgr w) of
        None \<Rightarrow> set_volume_finish vol set_global w
      | Some h \<Rightarrow>
          if \<not> smooth then set_volume_finish vol set_global (emit [AudioSetVolume h vol] w)
          else
            (case int_truediv (audio_get_volume - vol) n_steps of
               Inl err \<Rightarrow> (w, Raised err)
             | Inr step_size \<Rightarrow>
                 set_volume_iter w
                   \<lparr>sv_volume = vol, sv_set_global = set_global, sv_n_steps = n_steps,
                    sv_seconds = seconds, sv_current_volume = audio_get_volume,
                    sv_step_size = step_size, sv_i = 0\<rparr>))"

definition set_volume_resume :: "world \<Rightarrow> sv_frame \<Rightarrow> world \<times> sv_frame outcome" where
  "set_volume_resume w fr = set_volume_iter w (fr\<lparr>sv_i := sv_i fr + 1\<rparr>)"

text \<open>
  \<^verbatim>\<open>set_volume\<close> run to its end with nothing else scheduled in between: the call
  and then as many resumptions as the loop has turns.
\<close>

fun set_volume_resumes :: "nat \<Rightarrow> world \<times> sv_frame outcome \<Rightarrow> world \<times> sv_frame outcome" where
  "set_volume_resumes (Suc k) (w, Suspended fr) = set_volume_resumes k (set_volume_resume w fr)"
| "set_volume_resumes k r = r"

definition set_volume ::
    "world \<Rightarrow> int \<Rightarrow> bool \<Rightarrow> bool \<Rightarrow> int \<Rightarrow> number \<Rightarrow> int \<Rightarrow> world \<times> sv_frame outcome" where
  "set_volume w vol set_global smooth n_steps seconds audio_get_volume =
     set_volume_resumes (nat n_steps)
       (set_volume_call w vol set_global smooth n_steps seconds audio_get_volume)"

text \<open>
  The volumes a smooth fade writes, in closed form: in binary floating point with
  the truncation of \<^verbatim>\<open>int()\<close>, as in the source (\<open>fade_target\<close>), and in exact
  arithmetic with rounding to the nearest integer, as the specification words it
  (\<open>spec_fade_targets\<close>).  \<open>fade_in_range\<close> says that no float of the fade lies
  beyond the binary64 range.  \<open>volume_writes\<close> is the volumes written by a
  sequence of calls.
\<close>

definition fade_target :: "int \<Rightarrow> int \<Rightarrow> int \<Rightarrow> int \<Rightarrow> int" where
  "fade_target v0 vol n i =
     py_int (float_round (float_round (of_int v0) -
               float_round (float_round (of_int i) *
                            float_round (of_int (v0 - vol) / of_int n))))"

definition fade_targets :: "int \<Rightarrow> int \<Rightarrow> int \<Rightarrow> int list" where
  "fade_targets v0 vol n = map (fade_target v0 vol n) [1..n]"

definition in_float_range :: "rat \<Rightarrow> bool" where
  "in_float_range x = (\<bar>float_round x\<bar> \<le> max_float)"

definition fade_in_range :: "int \<Rightarrow> int \<Rightarrow> int \<Rightarrow> bool" where
  "fade_in_range v0 vol n =
     (in_float_range (of_int v0) \<and> in_float_range (of_int (v0 - vol) / of_int n) \<and>
      list_all
        (\<lambda>i. in_float_range (of_int i) \<and>
             in_float_range (float_round (of_int i) *
                             float_round (of_int (v0 - vol) / of_int n)) \<and>
             in_float_range (float_round (of_int v0) -
                             float_round (float_round (of_int i) *
                                          float_round (of_int (v0 - vol) / of_int n))))
        [1..n])"

definition spec_fade_targets :: "int \<Rightarrow> int \<Rightarrow> int \<Rightarrow> int list" where
  "spec_fade_targets v0 vol n =
     map (\<lambda>i. round (of_int v0 - of_int i * ((of_int (v0 - vol) :: rat) / of_int n))) [1..n]"

definition volume_writes :: "effect list \<Rightarrow> int list" where
  "volume_writes es = concat (map (\<lambda>e. case e of AudioSetVolume h v \<Rightarrow> [v] | _ \<Rightarrow> []) es)"

subsection \<open>\<^verbatim>\<open>MusicManager._play_track_list\<close>\<close>

text \<open>
  What the environment answers while the coroutine runs from one suspension to
  the next: \<^verbatim>\<open>os.path.isfile\<close>, the order \<^verbatim>\<open>random.shuffle\<close> leaves the list in,
  and the results of \<^verbatim>\<open>play()\<close>, \<^verbatim>\<open>is_playing()\<close>, \<^verbatim>\<open>get_time()\<close> and
  \<^verbatim>\<open>audio_get_volume()\<close>.
\<close>

record env =
  os_path_isfile :: "string \<Rightarrow> bool"
  random_shuffle :: "track list \<Rightarrow> track list"
  play :: int
  is_playing :: bool
  get_time :: int
  audio_get_volume :: int

definition SLEEP_TIME :: rat where
  "SLEEP_TIME = float_round (1 / 100)"

text \<open>
  \<^verbatim>\<open>os.path.join\<close> of two components, as \<^verbatim>\<open>posixpath\<close> defines it.
\<close>

definition os_path_join :: "string \<Rightarrow> string \<Rightarrow> string" where
  "os_path_join a b =
     (if b \<noteq> [] \<and> hd b = CHR ''/'' then b
      else if a = [] \<or> last a = CHR ''/'' then a @ b
      else a @ ''/'' @ b)"

text \<open>
  The handler \<^verbatim>\<open>except asyncio.CancelledError\<close> of the outer \<^verbatim>\<open>try\<close>
  (lines 240 to 246): stop the player if there is one, clear both attributes,
  re-raise.
\<close>

definition cleanup :: "world \<Rightarrow> world \<times> frame" where
  "cleanup w =
     (let w1 = (case current_player (mgr w) of None \<Rightarrow> w | Some h \<Rightarrow> emit [Stop h] w)
      in (w1\<lparr>mgr := (mgr w1)\<lparr>currently_playing := None, current_player := None\<rparr>\<rparr>,
          Done (Some CancelledError)))"

text \<open>
  The body of the \<^verbatim>\<open>for\<close> loop for one track, up to the sleep of line 226.
\<close>

definition begin_track ::
    "env \<Rightarrow> music_group \<Rightarrow> track_list \<Rightarrow> world \<Rightarrow> track \<Rightarrow> track list \<Rightarrow> world \<times> frame" where
  "begin_track e grp tlist w track rest =
     (case get_track_list_root_directory (mgr w) grp tlist of
        Inl err \<Rightarrow> if err = ValueError then cleanup w else (w, Done (Some err))
      | Inr root_directory \<Rightarrow>
          let file_path = os_path_join root_directory (t_file track) in
          if \<not> os_path_isfile e file_path then cleanup w
          else
            let h = players w;
                w1 = emit [MediaPlayer h file_path, AudioSetVolume h 0, Play h]
                       (w\<lparr>mgr := (mgr w)\<lparr>current_player := Some h\<rparr>, players := Suc h\<rparr>)
            in if play e = - 1 then cleanup w1
               else
                 let w2 = (case start_at track of None \<Rightarrow> w1 | Some ms \<Rightarrow> emit [SetTime h ms] w1)
                 in (emit [Sleep (float_round (1 / 10))] w2, Settle track rest))"

text \<open>
  \<^verbatim>\<open>tracks = list(track_list.tracks)\<close>, shuffled if the track list says so.
\<close>

definition working_copy :: "env \<Rightarrow> track_list \<Rightarrow> track list" where
  "working_copy e tlist =
     (if shuffle tlist then random_shuffle e (tracks tlist) else tracks tlist)"

text \<open>
  The \<^verbatim>\<open>for\<close> loop over the tracks that are left, inside \<^verbatim>\<open>while True\<close>:
  when the tracks are exhausted the loop ends if \<^verbatim>\<open>loop\<close> is false and starts
  again on a new working copy otherwise.  With no track and \<^verbatim>\<open>loop\<close> true the
  source spins without ever reaching an \<^verbatim>\<open>await\<close>: the value is \<open>None\<close>.
\<close>

partial_function (option) for_loop ::
    "env \<Rightarrow> music_group \<Rightarrow> track_list \<Rightarrow> world \<Rightarrow> track list \<Rightarrow> (world \<times> frame) option" where
  "for_loop e grp tlist w ts =
     (case ts of
        track # rest \<Rightarrow> Some (begin_track e grp tlist w track rest)
      | [] \<Rightarrow>
          if \<not> loop tlist then Some (w, Done None)
          else for_loop e grp tlist w (working_copy e tlist))"

declare for_loop.simps [code]

text \<open>
  \<^verbatim>\<open>while self.current_player.is_playing()\<close>, from the test of the condition
  to the sleep of line 232, or on to the next track.
\<close>

definition while_playing ::
    "env \<Rightarrow> music_group \<Rightarrow> track_list \<Rightarrow> world \<Rightarrow> track \<Rightarrow> track list \<Rightarrow> (world \<times> frame) option" where
  "while_playing e grp tlist w track rest =
     (case current_player (mgr w) of
        None \<Rightarrow> Some (w, Done (Some AttributeError))
      | Some h \<Rightarrow>
          if is_playing e then
            let w1 = (if end_at track \<noteq> None \<and> get_time e \<ge> the (end_at track)
                      then emit [Stop h] w else w)
            in Some (emit [Sleep SLEEP_TIME] w1, Poll track rest)
          else for_loop e grp tlist w rest)"

definition after_fade_in ::
    "env \<Rightarrow> music_group \<Rightarrow> track_list \<Rightarrow> track \<Rightarrow> track list \<Rightarrow> world \<times> sv_frame outcome
       \<Rightarrow> (world \<times> frame) option" where
  "after_fade_in e grp tlist track rest r =
     (case r of
        (w, Suspended sv) \<Rightarrow> Some (w, FadeIn track rest sv)
      | (w, Returned) \<Rightarrow> while_playing e grp tlist w track rest
      | (w, Raised err) \<Rightarrow> Some (w, Done (Some err)))"

definition after_fade_out :: "track \<Rightarrow> track list \<Rightarrow> world \<times> sv_frame outcome \<Rightarrow> world \<times> frame" where
  "after_fade_out track rest r =
     (case r of
        (w, Suspended sv) \<Rightarrow> (w, FadeOut track rest sv)
      | (w, Returned) \<Rightarrow> cleanup w
      | (w, Raised err) \<Rightarrow> if err = CancelledError then cleanup w else (w, Done (Some err)))"

text \<open>
  The coroutine resumed at its suspension point.  \<open>cancelled\<close> says that the
  event loop throws \<^verbatim>\<open>CancelledError\<close> into it there.  A coroutine that has not
  started raises at once, outside every \<^verbatim>\<open>try\<close>.
\<close>

definition private_play_track_list_resume ::
    "env \<Rightarrow> bool \<Rightarrow> music_group \<Rightarrow> track_list \<Rightarrow> world \<Rightarrow> frame \<Rightarrow> (world \<times> frame) option" where
  "private_play_track_list_resume e cancelled grp tlist w fr =
     (case fr of
        Created \<Rightarrow>
          if cancelled then Some (w, Done (Some CancelledError))
          else for_loop e grp tlist w (working_copy e tlist)
      | Settle track rest \<Rightarrow>
          if cancelled then Some (cleanup w)
          else after_fade_in e grp tlist track rest
                 (set_volume_call w (volume (mgr w)) False True 20 (PyInt 2) (audio_get_volume e))
      | FadeIn track rest sv \<Rightarrow>
          if cancelled then Some (cleanup w)
          else after_fade_in e grp tlist track rest (set_volume_resume w sv)
      | Poll track rest \<Rightarrow>
          if cancelled
          then Some (after_fade_out track rest
                       (set_volume_call w 0 False True 20 (PyInt 2) (audio_get_volume e)))
          else while_playing e grp tlist w track rest
      | FadeOut track rest sv \<Rightarrow>
          if cancelled then Some (cleanup w)
          else Some (after_fade_out track rest (set_volume_resume w sv))
      | Done r \<Rightarrow> None)"

subsection \<open>\<^verbatim>\<open>MusicManager.cancel\<close> and \<^verbatim>\<open>MusicManager.play_track_list\<close>\<close>

text \<open>
  A call of one of the three public coroutines, suspended: in the polling loop of
  \<^verbatim>\<open>cancel()\<close> (called directly, or from \<^verbatim>\<open>play_track_list\<close> with the group and
  track list it resolved), at the last sleep of \<^verbatim>\<open>play_track_list\<close>, inside
  \<^verbatim>\<open>set_volume\<close>; or ended.
\<close>

datatype caller =
    In_cancel
  | In_play_cancel music_group track_list
  | In_play_yield
  | In_set_volume sv_frame
  | Ended "error option"

record system =
  wld :: world
  callers :: "caller list"

fun is_done :: "frame \<Rightarrow> bool" where
  "is_done (Done r) = True"
| "is_done fr = False"

text \<open>\<^verbatim>\<open>Task.cancel()\<close>: without effect on a task that is done.\<close>

definition task_cancel :: "task_id \<Rightarrow> world \<Rightarrow> world" where
  "task_cancel t w =
     (if t < length (tasks w) \<and> \<not> is_done (t_frame (tasks w ! t))
      then w\<lparr>tasks := (tasks w)[t := (tasks w ! t)\<lparr>must_cancel := True\<rparr>]\<rparr>
      else w)"

definition cancel_wait :: "world \<Rightarrow> world \<times> unit outcome" where
  "cancel_wait w =
     (if currently_playing (mgr w) \<noteq> None then (emit [Sleep SLEEP_TIME] w, Suspended ())
      else (w, Returned))"

definition cancel_call :: "world \<Rightarrow> world \<times> unit outcome" where
  "cancel_call w =
     (case currently_playing (mgr w) of
        None \<Rightarrow> (w, Returned)
      | Some (grp, tlist, t) \<Rightarrow> cancel_wait (task_cancel t w))"

definition cancel_resume :: "world \<Rightarrow> world \<times> unit outcome" where
  "cancel_resume w = cancel_wait w"

definition create_task :: "music_group \<Rightarrow> track_list \<Rightarrow> world \<Rightarrow> world \<times> task_id" where
  "create_task grp tlist w =
     (w\<lparr>tasks := tasks w @
          [\<lparr>t_group = grp, t_track_list = tlist, t_frame = Created, must_cancel = False\<rparr>]\<rparr>,
      length (tasks w))"

definition after_cancel :: "music_group \<Rightarrow> track_list \<Rightarrow> world \<times> unit outcome \<Rightarrow> world \<times> caller" where
  "after_cancel grp tlist r =
     (case r of
        (w, Suspended u) \<Rightarrow> (w, In_play_cancel grp tlist)
      | (w, Raised err) \<Rightarrow> (w, Ended (Some err))
      | (w, Returned) \<Rightarrow>
          (case create_task grp tlist w of
             (w1, t) \<Rightarrow>
               (emit [Sleep SLEEP_TIME]
                  (w1\<lparr>mgr := (mgr w1)\<lparr>currently_playing := Some (grp, tlist, t)\<rparr>\<rparr>),
                In_play_yield)))"

definition play_track_list_call :: "world \<Rightarrow> int \<Rightarrow> int \<Rightarrow> world \<times> caller" where
  "play_track_list_call w group_index track_list_index =
     (case getitem (groups (mgr w)) group_index of
        Inl err \<Rightarrow> (w, Ended (Some err))
      | Inr grp \<Rightarrow>
          (case getitem (track_lists grp) track_list_index of
             Inl err \<Rightarrow> (w, Ended (Some err))
           | Inr tlist \<Rightarrow> after_cancel grp tlist (cancel_call w)))"

definition ended :: "world \<times> 'f outcome \<Rightarrow> ('f \<Rightarrow> caller) \<Rightarrow> world \<times> caller" where
  "ended r suspended =
     (case r of
        (w, Suspended f) \<Rightarrow> (w, suspended f)
      | (w, Returned) \<Rightarrow> (w, Ended None)
      | (w, Raised err) \<Rightarrow> (w, Ended (Some err)))"

definition caller_resume :: "world \<Rightarrow> caller \<Rightarrow> (world \<times> caller) option" where
  "caller_resume w c =
     (case c of
        In_cancel \<Rightarrow> Some (ended (cancel_resume w) (\<lambda>u. In_cancel))
      | In_play_cancel grp tlist \<Rightarrow> Some (after_cancel grp tlist (cancel_resume w))
      | In_play_yield \<Rightarrow> Some (w, Ended None)
      | In_set_volume sv \<Rightarrow> Some (ended (set_volume_resume w sv) In_set_volume)
      | Ended r \<Rightarrow> None)"

definition task_resume :: "task_id \<Rightarrow> env \<Rightarrow> world \<Rightarrow> world option" where
  "task_resume t e w =
     (if t < length (tasks w) then
        let tk = tasks w ! t;
            w1 = w\<lparr>tasks := (tasks w)[t := tk\<lparr>must_cancel := False\<rparr>]\<rparr>
        in (case private_play_track_list_resume e (must_cancel tk) (t_group tk) (t_track_list tk)
                   w1 (t_frame tk) of
              None \<Rightarrow> None
            | Some (w2, fr) \<Rightarrow>
                Some (w2\<lparr>tasks := (tasks w2)[t := (tasks w2 ! t)\<lparr>t_frame := fr\<rparr>]\<rparr>))
      else None)"

subsection \<open>The event loop\<close>

text \<open>
  One step of the system: a new call of a public coroutine, which runs to its
  first suspension, or the resumption of a suspended call or of a task.  The event
  loop runs one coroutine at a time, and a coroutine gives control back only at
  a sleep.  A step is \<open>None\<close> when there is nothing to resume or when the
  coroutine never reaches its next suspension.
\<close>

datatype event =
    Call_cancel
  | Call_play_track_list int int
  | Call_set_volume int bool bool int number int
  | Resume_caller nat
  | Resume_task task_id env

definition entered :: "system \<Rightarrow> world \<times> caller \<Rightarrow> system" where
  "entered s r = (case r of (w, c) \<Rightarrow> s\<lparr>wld := w, callers := callers s @ [c]\<rparr>)"

fun step :: "event \<Rightarrow> system \<Rightarrow> system option" where
  "step Call_cancel s = Some (entered s (ended (cancel_call (wld s)) (\<lambda>u. In_cancel)))"
| "step (Call_play_track_list gi ti) s = Some (entered s (play_track_list_call (wld s) gi ti))"
| "step (Call_set_volume vol set_global smooth n_steps seconds v0) s =
     Some (entered s (ended (set_volume_call (wld s) vol set_global smooth n_steps seconds v0)
                        In_set_volume))"
| "step (Resume_caller c) s =
     (if c < length (callers s) then
        (case caller_resume (wld s) (callers s ! c) of
           None \<Rightarrow> None
         | Some (w, c') \<Rightarrow> Some (s\<lparr>wld := w, callers := (callers s)[c := c']\<rparr>))
      else None)"
| "step (Resume_task t e) s =
     (case task_resume t e (wld s) of
        None \<Rightarrow> None
      | Some w \<Rightarrow> Some (s\<lparr>wld := w\<rparr>))"

fun run :: "event list \<Rightarrow> system \<Rightarrow> system option" where
  "run [] s = Some s"
| "run (ev # evs) s = (case step ev s of None \<Rightarrow> None | Some s' \<Rightarrow> run evs s')"

definition start :: "manager \<Rightarrow> system" where
  "start m = \<lparr>wld = \<lparr>mgr = m, tasks = [], players = 0, trace = []\<rparr>, callers = []\<rparr>"


subsection \<open>The time format in the specification's words\<close>

text \<open>
  What is known of the table of decimal digits: below 128 the decimal digits are
  the ASCII digits, with their values.  \<open>sample_decimal\<close> is a part of the
  table: the ASCII digits, the Arabic-Indic digits (U+0660 to U+0669) and the
  fullwidth digits (U+FF10 to U+FF19).
\<close>

definition ucd_ok :: "(codepoint \<Rightarrow> nat option) \<Rightarrow> bool" where
  "ucd_ok dec =
     (\<forall>c < 128. dec c = (if 48 \<le> c \<and> c \<le> 57 then Some (c - 48) else None))"

definition sample_decimal :: "codepoint \<Rightarrow> nat option" where
  "sample_decimal c =
     (if 48 \<le> c \<and> c \<le> 57 then Some (c - 48)
      else if 1632 \<le> c \<and> c \<le> 1641 then Some (c - 1632)
      else if 65296 \<le> c \<and> c \<le> 65305 then Some (c - 65296)
      else None)"

text \<open>
  The specification speaks of strings that can be parsed as
  \<^verbatim>\<open>hours:minutes:seconds\<close> integers.  \<open>spec_time_to_ms\<close> follows those words:
  three fields of decimal digits separated by colons, with no bound on a field.
  \<open>group_text\<close> is the texts one group of the format matches, and
  \<open>field_ok\<close> the bound this puts on a field of ASCII digits.
\<close>

fun split_on :: "codepoint \<Rightarrow> unicode \<Rightarrow> unicode list" where
  "split_on c [] = [[]]"
| "split_on c (x # xs) =
     (if x = c then [] # split_on c xs
      else (case split_on c xs of w # ws \<Rightarrow> (x # w) # ws | [] \<Rightarrow> [[x]]))"

definition colon :: codepoint where
  "colon = of_char (CHR '':'')"

definition all_digits :: "(codepoint \<Rightarrow> nat option) \<Rightarrow> unicode \<Rightarrow> bool" where
  "all_digits dec w = (w \<noteq> [] \<and> list_all (is_digit dec) w)"

definition spec_time_to_ms :: "(codepoint \<Rightarrow> nat option) \<Rightarrow> unicode \<Rightarrow> int option" where
  "spec_time_to_ms dec s =
     (case split_on colon s of
        [h, m, sec] \<Rightarrow>
          if all_digits dec h \<and> all_digits dec m \<and> all_digits dec sec
          then Some ((int_of_digits dec sec + 60 * int_of_digits dec m +
                      3600 * int_of_digits dec h) * 1000)
          else None
      | _ \<Rightarrow> None)"

definition field_ok :: "(codepoint \<Rightarrow> nat option) \<Rightarrow> int \<Rightarrow> unicode \<Rightarrow> bool" where
  "field_ok dec bound w = (all_digits dec w \<and> length w \<le> 2 \<and> int_of_digits dec w \<le> bound)"

definition group_text ::
    "(codepoint \<Rightarrow> codepoint \<Rightarrow> bool) \<Rightarrow> (codepoint \<Rightarrow> nat option) \<Rightarrow> unicode \<Rightarrow> bool" where
  "group_text two dec w =
     (case w of
        [a] \<Rightarrow> is_digit dec a
      | [a, b] \<Rightarrow> two a b
      | _ \<Rightarrow> False)"


subsection \<open>Concrete inputs\<close>

text \<open>A world in which a player is live and nothing else has happened.\<close>

definition playing_world :: world where
  "playing_world =
     \<lparr>mgr = \<lparr>volume = 50, directory = None, groups = [], currently_playing = None,
              current_player = Some 0\<rparr>,
      tasks = [], players = 1, trace = []\<rparr>"


text \<open>
  The manager of the specification's end-to-end example: one group \<^verbatim>\<open>"G"\<close> with one
  track list \<^verbatim>\<open>"T"\<close> (\<^verbatim>\<open>loop=false\<close>, \<^verbatim>\<open>shuffle=false\<close>, tracks \<^verbatim>\<open>a.mp3\<close> and
  \<^verbatim>\<open>b.mp3\<close>, directory \<^verbatim>\<open>"/music"\<close>), volume 50, nothing playing.
\<close>

definition example_track_list :: track_list where
  "example_track_list =
     \<lparr>tl_name = ''T'', tl_directory = Some ''/music'', loop = False, shuffle = False,
      tracks = [\<lparr>t_file = ''a.mp3'', start_at = None, end_at = None\<rparr>,
                \<lparr>t_file = ''b.mp3'', start_at = None, end_at = None\<rparr>]\<rparr>"

definition example_group :: music_group where
  "example_group = \<lparr>g_name = ''G'', g_directory = None, track_lists = [example_track_list]\<rparr>"

definition example_manager :: manager where
  "example_manager =
     \<lparr>volume = 50, directory = None, groups = [example_group],
      currently_playing = None, current_player = None\<rparr>"


text \<open>
  A manager with two groups, the second with two track lists \<^verbatim>\<open>"A"\<close> and
  \<^verbatim>\<open>"B"\<close>.
\<close>

definition list_A :: track_list where
  "list_A = \<lparr>tl_name = ''A'', tl_directory = None, loop = True, shuffle = True, tracks = []\<rparr>"

definition list_B :: track_list where
  "list_B = \<lparr>tl_name = ''B'', tl_directory = None, loop = True, shuffle = True, tracks = []\<rparr>"

definition two_list_group :: music_group where
  "two_list_group = \<lparr>g_name = ''H'', g_directory = None, track_lists = [list_A, list_B]\<rparr>"

definition two_group_manager :: manager where
  "two_group_manager =
     \<lparr>volume = 50, directory = None, groups = [example_group, two_list_group],
      currently_playing = None, current_player = None\<rparr>"


section \<open>Properties\<close>

subsection \<open>Directory resolution: precedence\<close>


text \<open>
  C3.  For every manager, group and track list, directory resolution returns the
  track list's own directory if it is set, else the group's if it is set, else the
  manager's default if it is set, and it fails (the source raises \<^verbatim>\<open>ValueError\<close>)
  exactly when all three are unset.
\<close>

theorem directory_resolution_precedence:
  "get_track_list_root_directory self grp tlist =
     (case tl_directory tlist of
        Some d \<Rightarrow> Inr d
      | None \<Rightarrow>
          (case g_directory grp of
             Some d \<Rightarrow> Inr d
           | None \<Rightarrow>
               (case directory self of
                  Some d \<Rightarrow> Inr d
                | None \<Rightarrow> Inl ValueError)))
   \<and> ((\<exists>e. get_track_list_root_directory self grp tlist = Inl e) =
        (tl_directory tlist = None \<and> g_directory grp = None \<and> directory self = None))"
  by (simp add: get_track_list_root_directory_def Let_def split: option.splits)

subsection \<open>Time strings\<close>

lemma ucd_ascii:
  "ucd_ok dec \<Longrightarrow> c < 128 \<Longrightarrow> dec c = (if 48 \<le> c \<and> c \<le> 57 then Some (c - 48) else None)"
  by (simp add: ucd_ok_def)

lemma sample_decimal_ok: "ucd_ok sample_decimal"
  by (simp add: ucd_ok_def sample_decimal_def)

lemma colon_not_digit: "ucd_ok dec \<Longrightarrow> \<not> is_digit dec colon"
  by (simp add: is_digit_def colon_def ucd_ascii)

lemma group_text_cases:
  "group_text two dec w = ((\<exists>a b. w = [a, b] \<and> two a b) \<or> (\<exists>a. w = [a] \<and> is_digit dec a))"
  by (auto simp: group_text_def split: list.splits)

lemma group_matches_set:
  "((w, r) \<in> set (group_matches two dec s)) = (s = w @ r \<and> group_text two dec w)"
  by (induction two dec s rule: group_matches.induct) (auto simp: group_text_cases)

lemma colon_matches_set: "(r \<in> set (colon_matches s)) = (s = colon # r)"
  by (cases s) (auto simp: is_char_def colon_def)

lemma in_concat_map: "x \<in> set xs \<Longrightarrow> y \<in> set (f x) \<Longrightarrow> y \<in> set (concat (map f xs))"
  by auto

lemma format_matches_set:
  "((h, m, sec, r) \<in> set (format_matches dec s)) =
     (s = h @ colon # m @ colon # sec @ r \<and>
      group_text (two_H dec) dec h \<and> group_text (two_M dec) dec m \<and>
      group_text (two_S dec) dec sec)"
proof
  assume "(h, m, sec, r) \<in> set (format_matches dec s)"
  then show "s = h @ colon # m @ colon # sec @ r \<and>
      group_text (two_H dec) dec h \<and> group_text (two_M dec) dec m \<and>
      group_text (two_S dec) dec sec"
    by (auto simp: format_matches_def group_matches_set colon_matches_set)
next
  assume a: "s = h @ colon # m @ colon # sec @ r \<and>
      group_text (two_H dec) dec h \<and> group_text (two_M dec) dec m \<and>
      group_text (two_S dec) dec sec"
  let ?r4 = "sec @ r"
  let ?r3 = "colon # ?r4"
  let ?r2 = "m @ ?r3"
  let ?r1 = "colon # ?r2"
  have 1: "(h, ?r1) \<in> set (group_matches (two_H dec) dec s)"
    using a by (simp add: group_matches_set)
  have 2: "?r2 \<in> set (colon_matches ?r1)"
    by (simp add: is_char_def colon_def)
  have 3: "(m, ?r3) \<in> set (group_matches (two_M dec) dec ?r2)"
    using a by (simp add: group_matches_set)
  have 4: "?r4 \<in> set (colon_matches ?r3)"
    by (simp add: is_char_def colon_def)
  have 5: "(sec, r) \<in> set (group_matches (two_S dec) dec ?r4)"
    using a by (simp add: group_matches_set)
  have 6: "(h, m, sec, r) \<in>
      set (map (\<lambda>(sec, r5). (h, m, sec, r5)) (group_matches (two_S dec) dec ?r4))"
    using 5 by (simp add: image_iff)
  show "(h, m, sec, r) \<in> set (format_matches dec s)"
    unfolding format_matches_def
    apply (rule in_concat_map[OF 1])
    apply (simp only: prod.case)
    apply (rule in_concat_map[OF 2])
    apply (rule in_concat_map[OF 3])
    apply (simp only: prod.case)
    apply (rule in_concat_map[OF 4])
    apply (rule 6)
    done
qed

lemma split_on_nonempty: "split_on c s \<noteq> []"
  by (induction s) (auto split: list.splits)

lemma split_on_single: "c \<notin> set w \<Longrightarrow> split_on c w = [w]"
  by (induction w) auto

lemma split_on_append: "c \<notin> set w \<Longrightarrow> split_on c (w @ c # r) = w # split_on c r"
  by (induction w) auto

lemma split_on_one: "split_on c s = [w] \<Longrightarrow> s = w"
  by (induction s arbitrary: w) (auto split: if_splits list.splits simp: split_on_nonempty)

lemma split_on_more:
  "split_on c s = w # v # vs \<Longrightarrow> \<exists>r. s = w @ c # r \<and> split_on c r = v # vs"
  by (induction s arbitrary: w) (auto split: if_splits list.splits)

lemma split_on_three:
  "split_on c s = [h, m, sec] \<Longrightarrow> s = h @ c # m @ c # sec"
  by (metis split_on_more split_on_one)

lemma all_digits_no_colon: "ucd_ok dec \<Longrightarrow> all_digits dec w \<Longrightarrow> colon \<notin> set w"
  using colon_not_digit by (auto simp: all_digits_def list_all_iff)

lemma class_digit:
  "ucd_ok dec \<Longrightarrow> in_class (CHR ''0'') hi a \<Longrightarrow> of_char hi \<le> (57::nat) \<Longrightarrow> is_digit dec a"
  by (simp add: in_class_def is_digit_def ucd_ascii)

lemma two_all_digits:
  assumes "ucd_ok dec"
  shows "two_H dec a b \<Longrightarrow> is_digit dec a \<and> is_digit dec b"
    and "two_M dec a b \<Longrightarrow> is_digit dec a \<and> is_digit dec b"
    and "two_S dec a b \<Longrightarrow> is_digit dec a \<and> is_digit dec b"
  using assms
  by (auto simp: two_H_def two_M_def two_S_def in_class_def is_char_def is_digit_def ucd_ascii)

lemma group_text_all_digits:
  assumes "ucd_ok dec"
  shows "group_text (two_H dec) dec w \<Longrightarrow> all_digits dec w"
    and "group_text (two_M dec) dec w \<Longrightarrow> all_digits dec w"
    and "group_text (two_S dec) dec w \<Longrightarrow> all_digits dec w"
  using two_all_digits[OF assms]
  by (auto simp: group_text_cases all_digits_def)

lemma split_on_fields:
  "ucd_ok dec \<Longrightarrow> all_digits dec h \<Longrightarrow> all_digits dec m \<Longrightarrow> all_digits dec sec \<Longrightarrow>
   split_on colon (h @ colon # m @ colon # sec) = [h, m, sec]"
  by (simp add: split_on_append split_on_single all_digits_no_colon)

lemma group_matches_first:
  assumes "group_text two dec w" and "\<And>a. \<not> two a colon"
    and "r = [] \<or> (\<exists>r'. r = colon # r')"
  shows "\<exists>rest. group_matches two dec (w @ r) = (w, r) # rest"
  using assms by (auto simp: group_text_cases)

lemma no_colon_second:
  assumes "ucd_ok dec"
  shows "\<not> two_H dec a colon" "\<not> two_M dec a colon" "\<not> two_S dec a colon"
  using colon_not_digit[OF assms]
  by (auto simp: two_H_def two_M_def two_S_def in_class_def colon_def)


lemma format_matches_valid:
  assumes "ucd_ok dec" and "group_text (two_H dec) dec h" and "group_text (two_M dec) dec m"
    and "group_text (two_S dec) dec sec"
  shows "\<exists>rest. format_matches dec (h @ colon # m @ colon # sec) = (h, m, sec, []) # rest"
proof -
  note nc = no_colon_second[OF assms(1)]
  obtain r1 where 1: "group_matches (two_H dec) dec (h @ colon # m @ colon # sec) =
      (h, colon # m @ colon # sec) # r1"
    using group_matches_first[of "two_H dec" dec h "colon # m @ colon # sec"] assms(2) nc
    by auto
  obtain r2 where 2: "group_matches (two_M dec) dec (m @ colon # sec) = (m, colon # sec) # r2"
    using group_matches_first[of "two_M dec" dec m "colon # sec"] assms(3) nc
    by auto
  obtain r3 where 3: "group_matches (two_S dec) dec sec = (sec, []) # r3"
    using group_matches_first[of "two_S dec" dec sec "[]"] assms(4) nc
    by auto
  have c: "is_char (CHR '':'') colon"
    by (simp add: is_char_def colon_def)
  show ?thesis
    by (simp add: format_matches_def 1 2 3 c)
qed

lemma strptime_HMS_valid:
  assumes "ucd_ok dec" and "group_text (two_H dec) dec h" and "group_text (two_M dec) dec m"
    and "group_text (two_S dec) dec sec"
  shows "strptime_HMS dec (h @ colon # m @ colon # sec) =
     Inr \<lparr>tm_hour = int_of_digits dec h, tm_min = int_of_digits dec m,
          tm_sec = int_of_digits dec sec\<rparr>"
  using format_matches_valid[OF assms] by (auto simp: strptime_HMS_def)

lemma strptime_HMS_Inr:
  assumes "strptime_HMS dec s = Inr t"
  shows "\<exists>h m sec. s = h @ colon # m @ colon # sec \<and>
           group_text (two_H dec) dec h \<and> group_text (two_M dec) dec m \<and>
           group_text (two_S dec) dec sec"
proof -
  from assms obtain h m sec rest where "format_matches dec s = (h, m, sec, []) # rest"
    by (auto simp: strptime_HMS_def split: list.splits if_splits)
  then have "(h, m, sec, []) \<in> set (format_matches dec s)" by simp
  then show ?thesis
    by (auto simp: format_matches_set)
qed

lemma strptime_HMS_error: "strptime_HMS dec s = Inl e \<Longrightarrow> e = ValueError"
  by (auto simp: strptime_HMS_def split: list.splits if_splits)

lemma convert_characterised:
  assumes "ucd_ok dec"
  shows "convert_formatted_time_to_ms dec s =
     (case split_on colon s of
        [h, m, sec] \<Rightarrow>
          if group_text (two_H dec) dec h \<and> group_text (two_M dec) dec m \<and>
             group_text (two_S dec) dec sec
          then Inr ((int_of_digits dec sec + int_of_digits dec m * 60 +
                     int_of_digits dec h * 3600) * 1000)
          else Inl ValueError
      | _ \<Rightarrow> Inl ValueError)"
proof (cases "\<exists>h m sec. s = h @ colon # m @ colon # sec \<and>
           group_text (two_H dec) dec h \<and> group_text (two_M dec) dec m \<and>
           group_text (two_S dec) dec sec")
  case True
  then obtain h m sec where s: "s = h @ colon # m @ colon # sec"
    and ok: "group_text (two_H dec) dec h" "group_text (two_M dec) dec m"
      "group_text (two_S dec) dec sec" by blast
  have "split_on colon s = [h, m, sec]"
    using ok group_text_all_digits[OF assms] by (simp add: s split_on_fields[OF assms])
  then show ?thesis
    using ok strptime_HMS_valid[OF assms ok] by (simp add: convert_formatted_time_to_ms_def s)
next
  case False
  have l: "convert_formatted_time_to_ms dec s = Inl ValueError"
  proof (cases "strptime_HMS dec s")
    case (Inl e)
    then show ?thesis
      using strptime_HMS_error[OF Inl] by (simp add: convert_formatted_time_to_ms_def)
  next
    case (Inr t)
    then show ?thesis using strptime_HMS_Inr[OF Inr] False by blast
  qed
  have "\<not> (group_text (two_H dec) dec h \<and> group_text (two_M dec) dec m \<and>
           group_text (two_S dec) dec sec)"
    if "split_on colon s = [h, m, sec]" for h m sec
    using False split_on_three[OF that] by blast
  then show ?thesis
    by (auto simp: l split: list.splits)
qed

lemma ascii_digit:
  "ucd_ok dec \<Longrightarrow> c < 128 \<Longrightarrow> is_digit dec c = (48 \<le> c \<and> c \<le> 57)"
  by (simp add: is_digit_def ucd_ascii)

lemma ascii_value:
  "ucd_ok dec \<Longrightarrow> c < 128 \<Longrightarrow> 48 \<le> c \<Longrightarrow> c \<le> 57 \<Longrightarrow> digit_value dec c = int c - 48"
  by (simp add: digit_value_def ucd_ascii)

lemma two_ascii:
  assumes "ucd_ok dec" and "a < 128" and "b < 128"
  shows "two_H dec a b = (is_digit dec a \<and> is_digit dec b \<and> int_of_digits dec [a, b] \<le> 23)"
    and "two_M dec a b = (is_digit dec a \<and> is_digit dec b \<and> int_of_digits dec [a, b] \<le> 59)"
    and "two_S dec a b = (is_digit dec a \<and> is_digit dec b \<and> int_of_digits dec [a, b] \<le> 61)"
proof -
  have v: "int_of_digits dec [a, b] = 10 * (int a - 48) + (int b - 48)"
    if "48 \<le> a" "a \<le> 57" "48 \<le> b" "b \<le> 57"
    using that assms by (simp add: int_of_digits_def ascii_value)
  show "two_H dec a b = (is_digit dec a \<and> is_digit dec b \<and> int_of_digits dec [a, b] \<le> 23)"
    using assms v by (auto simp: two_H_def in_class_def is_char_def ascii_digit)
  show "two_M dec a b = (is_digit dec a \<and> is_digit dec b \<and> int_of_digits dec [a, b] \<le> 59)"
    using assms v by (auto simp: two_M_def in_class_def is_char_def ascii_digit)
  show "two_S dec a b = (is_digit dec a \<and> is_digit dec b \<and> int_of_digits dec [a, b] \<le> 61)"
    using assms v by (auto simp: two_S_def in_class_def is_char_def ascii_digit)
qed


lemma group_text_ascii:
  assumes "ucd_ok dec" and "\<forall>c \<in> set w. c < 128"
  shows "group_text (two_H dec) dec w = field_ok dec 23 w"
    and "group_text (two_M dec) dec w = field_ok dec 59 w"
    and "group_text (two_S dec) dec w = field_ok dec 61 w"
proof -
  have one: "int_of_digits dec [a] \<le> 9" if "is_digit dec a" "a < 128" for a
    using that assms(1) by (auto simp: int_of_digits_def ascii_digit ascii_value)
  have shape: "w = [] \<or> (\<exists>a. w = [a]) \<or> (\<exists>a b. w = [a, b]) \<or> 2 < length w"
  proof (cases w)
    case Nil
    then show ?thesis by simp
  next
    case (Cons a w1)
    then show ?thesis
    proof (cases w1)
      case Nil
      with Cons show ?thesis by simp
    next
      case c2: (Cons b w2)
      with Cons show ?thesis by (cases w2) auto
    qed
  qed
  show "group_text (two_H dec) dec w = field_ok dec 23 w"
    using shape assms(2) one two_ascii(1)[OF assms(1)]
    by (auto simp: group_text_cases field_ok_def all_digits_def) force+
  show "group_text (two_M dec) dec w = field_ok dec 59 w"
    using shape assms(2) one two_ascii(2)[OF assms(1)]
    by (auto simp: group_text_cases field_ok_def all_digits_def) force+
  show "group_text (two_S dec) dec w = field_ok dec 61 w"
    using shape assms(2) one two_ascii(3)[OF assms(1)]
    by (auto simp: group_text_cases field_ok_def all_digits_def) force+
qed


lemmas time_simps =
  ascii_def convert_formatted_time_to_ms_def strptime_HMS_def format_matches_def
  two_H_def two_M_def two_S_def is_digit_def in_class_def is_char_def int_of_digits_def
  digit_value_def

text \<open>
  C4, as the claim states it, does not hold: \<^verbatim>\<open>"25:00:00"\<close> parses as
  hours, minutes and seconds integers (25 hours are 90000000 ms), and the source
  raises \<^verbatim>\<open>ValueError\<close> on it, because \<^verbatim>\<open>%H\<close> admits 0 to 23 only.  (An
  ASCII string consults only the ASCII part of the table of decimal digits.)
\<close>

theorem time_string_25_hours_rejected:
  "spec_time_to_ms sample_decimal (ascii ''25:00:00'') = Some 90000000 \<and>
   convert_formatted_time_to_ms sample_decimal (ascii ''25:00:00'') = Inl ValueError"
  by (simp add: time_simps spec_time_to_ms_def all_digits_def colon_def sample_decimal_def)

text \<open>
  C4, amended.  For every table of Unicode decimal digits, track construction
  converts a time string to \<open>(S + 60 * M + 3600 * H) * 1000\<close> milliseconds
  exactly when the string is three colon-separated fields that each match their
  group of the format: one decimal digit, or two characters of the group's
  two-character alternatives (\<^verbatim>\<open>2[0-3]\<close> or \<^verbatim>\<open>[0-1]\d\<close> for hours,
  \<^verbatim>\<open>[0-5]\d\<close> for minutes, \<^verbatim>\<open>6[0-1]\<close> or \<^verbatim>\<open>[0-5]\d\<close> for seconds); it
  raises \<^verbatim>\<open>ValueError\<close> on every other string.  For a field of ASCII characters
  this means one or two digits with \<open>H \<le> 23\<close>, \<open>M \<le> 59\<close>, \<open>S \<le> 61\<close>.
  \<^verbatim>\<open>"00:01:05"\<close> gives 65000 and \<^verbatim>\<open>"1:2"\<close> fails.  A time that is not
  supplied is absent; a time that is supplied is stored converted, the start
  before the end, and the first conversion that fails is the error of the
  construction.
\<close>

theorem track_time_conversion:
  assumes "ucd_ok dec"
  shows "(convert_formatted_time_to_ms dec s =
     (case split_on colon s of
        [h, m, sec] \<Rightarrow>
          if group_text (two_H dec) dec h \<and> group_text (two_M dec) dec m \<and>
             group_text (two_S dec) dec sec
          then Inr ((int_of_digits dec sec + int_of_digits dec m * 60 +
                     int_of_digits dec h * 3600) * 1000)
          else Inl ValueError
      | _ \<Rightarrow> Inl ValueError)) \<and>
    ((\<forall>c \<in> set w. c < 128) \<longrightarrow>
         group_text (two_H dec) dec w = field_ok dec 23 w \<and>
         group_text (two_M dec) dec w = field_ok dec 59 w \<and>
         group_text (two_S dec) dec w = field_ok dec 61 w) \<and>
    (convert_formatted_time_to_ms dec (ascii ''00:01:05'') = Inr 65000) \<and>
    (convert_formatted_time_to_ms dec (ascii ''1:2'') = Inl ValueError) \<and>
    (Track_init dec (FileName f) = Inr \<lparr>t_file = f, start_at = None, end_at = None\<rparr>) \<and>
    (Track_init dec (TrackDict f None None) =
           Inr \<lparr>t_file = f, start_at = None, end_at = None\<rparr>) \<and>
    (Track_init dec (TrackDict f (Some s) None) =
        (case convert_formatted_time_to_ms dec s of
           Inl e \<Rightarrow> Inl e
         | Inr a \<Rightarrow> Inr \<lparr>t_file = f, start_at = Some a, end_at = None\<rparr>)) \<and>
    (Track_init dec (TrackDict f None (Some s')) =
        (case convert_formatted_time_to_ms dec s' of
           Inl e \<Rightarrow> Inl e
         | Inr b \<Rightarrow> Inr \<lparr>t_file = f, start_at = None, end_at = Some b\<rparr>)) \<and>
    (Track_init dec (TrackDict f (Some s) (Some s')) =
        (case convert_formatted_time_to_ms dec s of
           Inl e \<Rightarrow> Inl e
         | Inr a \<Rightarrow>
             (case convert_formatted_time_to_ms dec s' of
                Inl e \<Rightarrow> Inl e
              | Inr b \<Rightarrow> Inr \<lparr>t_file = f, start_at = Some a, end_at = Some b\<rparr>)))"
proof -
  have c1: "convert_formatted_time_to_ms dec s =
     (case split_on colon s of
        [h, m, sec] \<Rightarrow>
          if group_text (two_H dec) dec h \<and> group_text (two_M dec) dec m \<and>
             group_text (two_S dec) dec sec
          then Inr ((int_of_digits dec sec + int_of_digits dec m * 60 +
                     int_of_digits dec h * 3600) * 1000)
          else Inl ValueError
      | _ \<Rightarrow> Inl ValueError)"
    using assms by (rule convert_characterised)
  have c2: "(\<forall>c \<in> set w. c < 128) \<longrightarrow>
         group_text (two_H dec) dec w = field_ok dec 23 w \<and>
         group_text (two_M dec) dec w = field_ok dec 59 w \<and>
         group_text (two_S dec) dec w = field_ok dec 61 w"
    using group_text_ascii[OF assms] by blast
  have c3: "convert_formatted_time_to_ms dec (ascii ''00:01:05'') = Inr 65000"
    by (simp add: time_simps ucd_ascii[OF assms])
  have c4: "convert_formatted_time_to_ms dec (ascii ''1:2'') = Inl ValueError"
    by (simp add: time_simps ucd_ascii[OF assms])
  have c5: "Track_init dec (FileName f) = Inr \<lparr>t_file = f, start_at = None, end_at = None\<rparr>"
    by simp
  have c6: "Track_init dec (TrackDict f None None) =
           Inr \<lparr>t_file = f, start_at = None, end_at = None\<rparr>"
    by (simp add: convert_optional_def)
  have c7: "Track_init dec (TrackDict f (Some s) None) =
        (case convert_formatted_time_to_ms dec s of
           Inl e \<Rightarrow> Inl e
         | Inr a \<Rightarrow> Inr \<lparr>t_file = f, start_at = Some a, end_at = None\<rparr>)"
    by (simp add: convert_optional_def split: sum.splits)
  have c8: "Track_init dec (TrackDict f None (Some s')) =
        (case convert_formatted_time_to_ms dec s' of
           Inl e \<Rightarrow> Inl e
         | Inr b \<Rightarrow> Inr \<lparr>t_file = f, start_at = None, end_at = Some b\<rparr>)"
    by (simp add: convert_optional_def split: sum.splits)
  have c9: "Track_init dec (TrackDict f (Some s) (Some s')) =
        (case convert_formatted_time_to_ms dec s of
           Inl e \<Rightarrow> Inl e
         | Inr a \<Rightarrow>
             (case convert_formatted_time_to_ms dec s' of
                Inl e \<Rightarrow> Inl e
              | Inr b \<Rightarrow> Inr \<lparr>t_file = f, start_at = Some a, end_at = Some b\<rparr>))"
    by (simp add: convert_optional_def split: sum.splits)
  show ?thesis
    by (intro conjI c1 c2 c3 c4 c5 c6 c7 c8 c9)
qed

text \<open>
  The theorem at a table that holds the ASCII, the Arabic-Indic and the fullwidth
  digits: \<^verbatim>\<open>"1:2:3"\<close> written in Arabic-Indic digits is 3723000 ms, a start time
  alone is stored, and fullwidth 2 followed by ASCII 3 is not an hour.
\<close>

theorem track_time_conversion_witness:
  "convert_formatted_time_to_ms sample_decimal [1633, 58, 1634, 58, 1635] = Inr 3723000 \<and>
   convert_formatted_time_to_ms sample_decimal (65298 # ascii ''3:00:00'') = Inl ValueError \<and>
   convert_formatted_time_to_ms sample_decimal (ascii ''00:01:05'') = Inr 65000 \<and>
   Track_init sample_decimal (TrackDict ''a.mp3'' (Some (ascii ''00:01:05'')) None) =
     Inr \<lparr>t_file = ''a.mp3'', start_at = Some 65000, end_at = None\<rparr>"
proof -
  note t = track_time_conversion[OF sample_decimal_ok]
  note t1 = t[THEN conjunct1]
  note t3 = t[THEN conjunct2, THEN conjunct2, THEN conjunct1]
  note t7 = t[THEN conjunct2, THEN conjunct2, THEN conjunct2, THEN conjunct2, THEN conjunct2,
      THEN conjunct2, THEN conjunct1]
  have 1: "convert_formatted_time_to_ms sample_decimal [1633, 58, 1634, 58, 1635] = Inr 3723000"
    unfolding t1
    by (simp add: colon_def group_text_def is_digit_def int_of_digits_def digit_value_def
        sample_decimal_def)
  have 2: "convert_formatted_time_to_ms sample_decimal (65298 # ascii ''3:00:00'') = Inl ValueError"
    unfolding t1
    by (simp add: colon_def group_text_def time_simps sample_decimal_def)
  have 3: "convert_formatted_time_to_ms sample_decimal (ascii ''00:01:05'') = Inr 65000"
    by (rule t3)
  have 4: "Track_init sample_decimal (TrackDict ''a.mp3'' (Some (ascii ''00:01:05'')) None) =
     Inr \<lparr>t_file = ''a.mp3'', start_at = Some 65000, end_at = None\<rparr>"
    unfolding t7 by (simp add: 3)
  show ?thesis using 1 2 3 4 by blast
qed


subsection \<open>Indices of \<^verbatim>\<open>play_track_list\<close>\<close>

lemma getitem_range:
  "getitem xs i =
     (if - int (length xs) \<le> i \<and> i < int (length xs)
      then Inr (xs ! nat (if i < 0 then int (length xs) + i else i))
      else Inl IndexError)"
  by (auto simp: getitem_def Let_def add.commute)

lemma cancel_wait_not_raised: "snd (cancel_wait w) \<noteq> Raised err"
  by (simp add: cancel_wait_def)

lemma cancel_call_not_raised: "snd (cancel_call w) \<noteq> Raised err"
  by (auto simp: cancel_call_def cancel_wait_def split: option.splits)

lemma after_cancel_not_ended:
  "snd r \<noteq> Raised err \<Longrightarrow> snd (after_cancel grp tlist r) \<noteq> Ended (Some err)"
  by (cases r) (auto simp: after_cancel_def create_task_def split: outcome.splits)

lemma play_track_list_call_in_range:
  assumes "- int (length (groups (mgr w))) \<le> gi" and "gi < int (length (groups (mgr w)))"
    and "grp = groups (mgr w) ! nat (if gi < 0 then int (length (groups (mgr w))) + gi else gi)"
    and "- int (length (track_lists grp)) \<le> ti" and "ti < int (length (track_lists grp))"
    and "tlist = track_lists grp ! nat (if ti < 0 then int (length (track_lists grp)) + ti else ti)"
  shows "play_track_list_call w gi ti = after_cancel grp tlist (cancel_call w)"
  using assms by (simp add: play_track_list_call_def getitem_range)

lemma play_track_list_call_group_out:
  assumes "gi < - int (length (groups (mgr w))) \<or> int (length (groups (mgr w))) \<le> gi"
  shows "play_track_list_call w gi ti = (w, Ended (Some IndexError))"
  using assms by (auto simp: play_track_list_call_def getitem_range)

lemma play_track_list_call_list_out:
  assumes "- int (length (groups (mgr w))) \<le> gi" and "gi < int (length (groups (mgr w)))"
    and "grp = groups (mgr w) ! nat (if gi < 0 then int (length (groups (mgr w))) + gi else gi)"
    and "ti < - int (length (track_lists grp)) \<or> int (length (track_lists grp)) \<le> ti"
  shows "play_track_list_call w gi ti = (w, Ended (Some IndexError))"
  using assms by (auto simp: play_track_list_call_def getitem_range)

text \<open>
  C8.  An index is out of range when it lies outside \<open>[-n, n - 1]\<close> for the
  sequence of length \<open>n\<close> it indexes.  For every out-of-range group index, and
  for every in-range group index with an out-of-range track list index,
  \<^verbatim>\<open>play_track_list\<close> ends by raising \<^verbatim>\<open>IndexError\<close> to its caller before anything
  else happens: the manager, the tasks, the players and the calls made are what
  they were.
\<close>

theorem play_track_list_index_error:
  assumes "n = int (length (groups (mgr (wld s))))"
    and "gi < - n \<or> n \<le> gi \<or>
         (let grp = groups (mgr (wld s)) ! nat (if gi < 0 then n + gi else gi);
              k = int (length (track_lists grp))
          in ti < - k \<or> k \<le> ti)"
  shows "play_track_list_call (wld s) gi ti = (wld s, Ended (Some IndexError)) \<and>
         step (Call_play_track_list gi ti) s =
           Some (s\<lparr>callers := callers s @ [Ended (Some IndexError)]\<rparr>)"
proof -
  have "play_track_list_call (wld s) gi ti = (wld s, Ended (Some IndexError))"
  proof (cases "gi < - n \<or> n \<le> gi")
    case True
    then show ?thesis
      using assms(1) by (intro play_track_list_call_group_out) simp
  next
    case False
    then show ?thesis
      using assms by (intro play_track_list_call_list_out[OF _ _ refl]) (auto simp: Let_def)
  qed
  then show ?thesis
    by (simp add: entered_def)
qed

theorem play_track_list_index_error_witness:
  "step (Call_play_track_list 1 0) (start example_manager) =
     Some ((start example_manager)\<lparr>callers := [Ended (Some IndexError)]\<rparr>) \<and>
   step (Call_play_track_list 0 (- 2)) (start example_manager) =
     Some ((start example_manager)\<lparr>callers := [Ended (Some IndexError)]\<rparr>)"
proof -
  have n: "(1::int) = int (length (groups (mgr (wld (start example_manager)))))"
    by (simp add: start_def example_manager_def)
  have 1: "(1::int) < - 1 \<or> (1::int) \<le> 1 \<or>
         (let grp = groups (mgr (wld (start example_manager))) ! nat (if (1::int) < 0 then 1 + 1 else 1);
              k = int (length (track_lists grp))
          in (0::int) < - k \<or> k \<le> 0)"
    by simp
  have 2: "(0::int) < - 1 \<or> (1::int) \<le> 0 \<or>
         (let grp = groups (mgr (wld (start example_manager))) ! nat (if (0::int) < 0 then 1 + 0 else 0);
              k = int (length (track_lists grp))
          in (- 2::int) < - k \<or> k \<le> - 2)"
    by (simp add: start_def example_manager_def example_group_def)
  have c: "callers (start example_manager) = []"
    by (simp add: start_def)
  from play_track_list_index_error[OF n 1] play_track_list_index_error[OF n 2]
  have "step (Call_play_track_list 1 0) (start example_manager) =
      Some ((start example_manager)\<lparr>callers := callers (start example_manager) @ [Ended (Some IndexError)]\<rparr>)"
    and "step (Call_play_track_list 0 (- 2)) (start example_manager) =
      Some ((start example_manager)\<lparr>callers := callers (start example_manager) @ [Ended (Some IndexError)]\<rparr>)"
    by blast+
  then show ?thesis
    unfolding c by simp
qed


text \<open>
  C10.  With \<open>n\<close> groups, and \<open>k\<close> track lists in the group selected,
  \<^verbatim>\<open>play_track_list\<close> accepts negative indices: an index \<open>i\<close> with
  \<open>-n \<le> i \<le> -1\<close> selects element \<open>n + i\<close>, an index with \<open>0 \<le> i < n\<close>
  selects element \<open>i\<close>, whatever the sign of the other index, and the call goes
  on to cancel and to create the task for the group and track list selected.
  \<^verbatim>\<open>IndexError\<close> is raised exactly when an index lies outside \<open>[-n, n - 1]\<close>.
\<close>

theorem play_track_list_negative_indices:
  assumes "n = int (length (groups (mgr w)))"
    and "grp = groups (mgr w) ! nat (if gi < 0 then n + gi else gi)"
    and "k = int (length (track_lists grp))"
  shows "(- n \<le> gi \<and> gi < n \<and> - k \<le> ti \<and> ti < k \<longrightarrow>
            play_track_list_call w gi ti =
              after_cancel grp (track_lists grp ! nat (if ti < 0 then k + ti else ti))
                (cancel_call w)) \<and>
         (snd (play_track_list_call w gi ti) = Ended (Some IndexError)) =
           (gi < - n \<or> n \<le> gi \<or> ti < - k \<or> k \<le> ti)"
proof -
  have a: "play_track_list_call w gi ti =
              after_cancel grp (track_lists grp ! nat (if ti < 0 then k + ti else ti))
                (cancel_call w)"
    if "- n \<le> gi \<and> gi < n \<and> - k \<le> ti \<and> ti < k"
    using that assms by (intro play_track_list_call_in_range) auto
  have b: "(snd (play_track_list_call w gi ti) = Ended (Some IndexError)) =
           (gi < - n \<or> n \<le> gi \<or> ti < - k \<or> k \<le> ti)"
  proof (cases "gi < - n \<or> n \<le> gi \<or> ti < - k \<or> k \<le> ti")
    case True
    then have "play_track_list_call w gi ti = (w, Ended (Some IndexError))"
      using assms
      by (cases "gi < - n \<or> n \<le> gi")
        (auto intro: play_track_list_call_group_out play_track_list_call_list_out)
    with True show ?thesis by simp
  next
    case False
    then have "- n \<le> gi \<and> gi < n \<and> - k \<le> ti \<and> ti < k" by auto
    from a[OF this] False show ?thesis
      using after_cancel_not_ended[OF cancel_call_not_raised] by simp
  qed
  show ?thesis using a b by blast
qed

theorem play_track_list_negative_indices_witness:
  "play_track_list_call (wld (start two_group_manager)) (- 1) (- 1) =
     after_cancel two_list_group list_B (cancel_call (wld (start two_group_manager))) \<and>
   play_track_list_call (wld (start two_group_manager)) 1 (- 2) =
     after_cancel two_list_group list_A (cancel_call (wld (start two_group_manager))) \<and>
   play_track_list_call (wld (start two_group_manager)) (- 2) 0 =
     after_cancel example_group example_track_list (cancel_call (wld (start two_group_manager))) \<and>
   snd (play_track_list_call (wld (start two_group_manager)) (- 3) 0) = Ended (Some IndexError)"
proof -
  let ?w = "wld (start two_group_manager)"
  have n: "(2::int) = int (length (groups (mgr ?w)))"
    by (simp add: start_def two_group_manager_def)
  have g1: "two_list_group = groups (mgr ?w) ! nat (if (- 1::int) < 0 then 2 + (- 1) else - 1)"
    by (simp add: start_def two_group_manager_def)
  have g2: "two_list_group = groups (mgr ?w) ! nat (if (1::int) < 0 then 2 + 1 else 1)"
    by (simp add: start_def two_group_manager_def)
  have g3: "example_group = groups (mgr ?w) ! nat (if (- 2::int) < 0 then 2 + (- 2) else - 2)"
    by (simp add: start_def two_group_manager_def)
  have g4: "groups (mgr ?w) ! nat (if (- 3::int) < 0 then 2 + (- 3) else - 3) =
      groups (mgr ?w) ! nat (if (- 3::int) < 0 then 2 + (- 3) else - 3)"
    by simp
  have k2: "(2::int) = int (length (track_lists two_list_group))"
    by (simp add: two_list_group_def)
  have k1: "(1::int) = int (length (track_lists example_group))"
    by (simp add: example_group_def)
  have e: "track_lists two_list_group ! Suc 0 = list_B" "track_lists two_list_group ! 0 = list_A"
    "track_lists example_group ! 0 = example_track_list"
    by (simp_all add: two_list_group_def example_group_def)
  have 1: "play_track_list_call ?w (- 1) (- 1) =
     after_cancel two_list_group list_B (cancel_call ?w)"
    using play_track_list_negative_indices[OF n g1 k2, of "- 1"] by (simp add: e)
  have 2: "play_track_list_call ?w 1 (- 2) =
     after_cancel two_list_group list_A (cancel_call ?w)"
    using play_track_list_negative_indices[OF n g2 k2, of "- 2"] by (simp add: e)
  have 3: "play_track_list_call ?w (- 2) 0 =
     after_cancel example_group example_track_list (cancel_call ?w)"
    using play_track_list_negative_indices[OF n g3 k1, of 0] by (simp add: e)
  have 4: "snd (play_track_list_call ?w (- 3) 0) = Ended (Some IndexError)"
    using play_track_list_negative_indices[OF n refl refl, of "- 3" 0] by simp
  show ?thesis using 1 2 3 4 by blast
qed


subsection \<open>The smooth fade\<close>

text \<open>The largest finite binary64 number, written out.\<close>

lemma max_float_code [code]:
  "max_float =
     179769313486231570814527423731704356798070567525844996598917476803157260780028538760589558632766878171540458953514382464234321326889464182768467546703537516986049910576551282076245490090389328944075868508455133942304583236903222948165808559332123348274797826204144723168738177180919299881250404026184124858368"
  by (simp add: max_float_def)

lemma emit_emit: "emit b (emit a w) = emit (a @ b) w"
  by (simp add: emit_def)

lemma emit_Nil: "emit [] w = w"
  by (simp add: emit_def)

lemma mgr_emit: "mgr (emit es w) = mgr w"
  by (simp add: emit_def)

lemma to_float_in_range: "in_float_range x \<Longrightarrow> to_float x = Inr (float_round x)"
  by (simp add: to_float_def in_float_range_def Let_def)

lemma new_volume_in_range:
  assumes "fade_in_range v0 vol n" and "1 \<le> i" and "i \<le> n"
  shows "new_volume v0 (float_round (of_int (v0 - vol) / of_int n)) (i - 1) =
           Inr (fade_target v0 vol n i)"
proof -
  have i: "i \<in> set [1..n]" using assms(2,3) by simp
  from assms(1) have a: "in_float_range (of_int v0)"
    and b: "in_float_range (of_int i)"
    and c: "in_float_range (float_round (of_int i) * float_round (of_int (v0 - vol) / of_int n))"
    and d: "in_float_range (float_round (of_int v0) -
                             float_round (float_round (of_int i) *
                                          float_round (of_int (v0 - vol) / of_int n)))"
    using i unfolding fade_in_range_def list_all_iff by blast+
  have e: "i - 1 + 1 = i" by simp
  show ?thesis
    unfolding new_volume_def float_of_int_def e
    by (simp only: to_float_in_range[OF a] to_float_in_range[OF b] to_float_in_range[OF c]
        to_float_in_range[OF d] sum.case fade_target_def)
qed

lemma step_size_in_range:
  assumes "fade_in_range v0 vol n" and "n \<noteq> 0"
  shows "int_truediv (v0 - vol) n = Inr (float_round (of_int (v0 - vol) / of_int n))"
  using assms by (simp add: int_truediv_def fade_in_range_def to_float_in_range)

lemma set_volume_iter_write:
  assumes "current_player (mgr w) = Some h" and "sv_i fr < sv_n_steps fr"
    and "new_volume (sv_current_volume fr) (sv_step_size fr) (sv_i fr) = Inr v"
    and "truediv (sv_seconds fr) (sv_n_steps fr) = Inr dt"
  shows "set_volume_iter w fr = (emit [AudioSetVolume h v, Sleep dt] w, Suspended fr)"
  using assms by (simp add: set_volume_iter_def)

lemma set_volume_resumes_closed:
  assumes "current_player (mgr w) = Some h"
    and "0 \<le> sv_i fr" and "sv_i fr < sv_n_steps fr"
    and "k = nat (sv_n_steps fr - sv_i fr)"
    and "\<And>j. 1 \<le> j \<Longrightarrow> j \<le> sv_n_steps fr \<Longrightarrow>
           new_volume (sv_current_volume fr) (sv_step_size fr) (j - 1) = Inr (t j)"
    and "truediv (sv_seconds fr) (sv_n_steps fr) = Inr dt"
  shows "set_volume_resumes k (w, Suspended fr) =
     set_volume_finish (sv_volume fr) (sv_set_global fr)
       (emit (concat (map (\<lambda>j. [AudioSetVolume h (t j), Sleep dt])
                       [sv_i fr + 2 .. sv_n_steps fr])) w)"
  using assms
proof (induction k arbitrary: w fr)
  case 0
  then show ?case by simp
next
  case (Suc k)
  let ?fr = "fr\<lparr>sv_i := sv_i fr + 1\<rparr>"
  show ?case
  proof (cases "sv_i fr + 1 < sv_n_steps fr")
    case True
    let ?w = "emit [AudioSetVolume h (t (sv_i fr + 2)), Sleep dt] w"
    have "new_volume (sv_current_volume fr) (sv_step_size fr) (sv_i fr + 2 - 1) =
        Inr (t (sv_i fr + 2))"
      using Suc.prems(2) True by (intro Suc.prems(5)) simp_all
    moreover have "sv_i fr + 2 - 1 = sv_i fr + 1" by simp
    ultimately have "new_volume (sv_current_volume fr) (sv_step_size fr) (sv_i fr + 1) =
        Inr (t (sv_i fr + 2))"
      by (simp only:)
    then have nv: "new_volume (sv_current_volume ?fr) (sv_step_size ?fr) (sv_i ?fr) =
        Inr (t (sv_i fr + 2))"
      by simp
    have r: "set_volume_resume w fr = (?w, Suspended ?fr)"
      unfolding set_volume_resume_def
      using Suc.prems(1) True nv Suc.prems(6)
      by (intro set_volume_iter_write) simp_all
    have "set_volume_resumes k (?w, Suspended ?fr) =
       set_volume_finish (sv_volume ?fr) (sv_set_global ?fr)
         (emit (concat (map (\<lambda>j. [AudioSetVolume h (t j), Sleep dt])
                         [sv_i ?fr + 2 .. sv_n_steps ?fr])) ?w)"
      using Suc.prems True by (intro Suc.IH) (auto simp: mgr_emit)
    moreover have "sv_i fr + 1 + 2 = sv_i fr + 3" by simp
    ultimately have ih: "set_volume_resumes k (?w, Suspended ?fr) =
       set_volume_finish (sv_volume fr) (sv_set_global fr)
         (emit (concat (map (\<lambda>j. [AudioSetVolume h (t j), Sleep dt])
                         [sv_i fr + 3 .. sv_n_steps fr])) ?w)"
      by simp
    have u: "[sv_i fr + 2 .. sv_n_steps fr] = (sv_i fr + 2) # [sv_i fr + 3 .. sv_n_steps fr]"
      using True by (subst upto_rec1) (auto simp: algebra_simps)
    have "set_volume_resumes (Suc k) (w, Suspended fr) = set_volume_resumes k (?w, Suspended ?fr)"
      by (simp add: r)
    then show ?thesis
      by (simp add: ih u emit_emit)
  next
    case False
    then have e: "sv_i fr + 1 = sv_n_steps fr" using Suc.prems by simp
    then have k0: "k = 0" using Suc.prems by simp
    have r: "set_volume_resume w fr = set_volume_finish (sv_volume fr) (sv_set_global fr) w"
      using e by (simp add: set_volume_resume_def set_volume_iter_def)
    have "set_volume_resumes (Suc k) (w, Suspended fr) =
        set_volume_resumes k (set_volume_finish (sv_volume fr) (sv_set_global fr) w)"
      by (simp add: r)
    also have "\<dots> = set_volume_finish (sv_volume fr) (sv_set_global fr) w"
      by (simp add: k0 set_volume_finish_def)
    finally show ?thesis using e by (simp add: emit_Nil)
  qed
qed

lemma set_volume_smooth_closed:
  assumes "current_player (mgr w) = Some h" and "0 < n"
    and "fade_in_range v0 vol n" and "truediv seconds n = Inr dt"
  shows "set_volume w vol set_global True n seconds v0 =
     set_volume_finish vol set_global
       (emit (concat (map (\<lambda>v. [AudioSetVolume h v, Sleep dt]) (fade_targets v0 vol n))) w)"
proof -
  let ?d = "float_round (of_int (v0 - vol) / of_int n)"
  let ?fr = "\<lparr>sv_volume = vol, sv_set_global = set_global, sv_n_steps = n,
                  sv_seconds = seconds, sv_current_volume = v0,
                  sv_step_size = ?d, sv_i = 0\<rparr>"
  let ?t = "fade_target v0 vol n"
  let ?w = "emit [AudioSetVolume h (?t 1), Sleep dt] w"
  have nv: "new_volume v0 ?d (j - 1) = Inr (?t j)" if "1 \<le> j" "j \<le> n" for j
    using assms(3) that by (rule new_volume_in_range)
  have st: "int_truediv (v0 - vol) n = Inr ?d"
    using assms(2,3) by (intro step_size_in_range) simp_all
  have "set_volume_iter w ?fr = (?w, Suspended ?fr)"
    using assms(1,2,4) nv[of 1] by (intro set_volume_iter_write) simp_all
  then have c: "set_volume_call w vol set_global True n seconds v0 = (?w, Suspended ?fr)"
    using assms(1) by (simp add: set_volume_call_def st)
  have "set_volume_resumes (nat n) (?w, Suspended ?fr) =
     set_volume_finish (sv_volume ?fr) (sv_set_global ?fr)
       (emit (concat (map (\<lambda>j. [AudioSetVolume h (?t j), Sleep dt])
                       [sv_i ?fr + 2 .. sv_n_steps ?fr])) ?w)"
    using assms(1,2,4) nv by (intro set_volume_resumes_closed) (auto simp: mgr_emit)
  moreover have "[1..n] = 1 # [2..n]"
    using assms(2) by (subst upto_rec1) auto
  ultimately show ?thesis
    by (simp add: set_volume_def c emit_emit fade_targets_def map_concat comp_def)
qed


text \<open>
  C5, as the claim states it, does not hold: the source truncates with
  \<^verbatim>\<open>int()\<close> where the claim rounds.  Fading from 0 to 3 in 4 steps writes
  0, 1, 2, 3; rounding \<open>0.75, 1.5, 2.25, 3\<close> to the nearest integer gives
  1, 2, 2, 3.
\<close>

theorem smooth_fade_counterexample:
  "volume_writes (trace (fst (set_volume playing_world 3 False True 4 (PyInt 2) 0))) = [0, 1, 2, 3] \<and>
   spec_fade_targets 0 3 4 = [1, 2, 2, 3]"
  by code_simp

text \<open>
  C5, amended.  When a player is live and \<open>set_volume\<close> runs smoothly with
  \<open>n > 0\<close> steps from the volume \<open>v0\<close> the player reports, and no float of
  the fade lies beyond the binary64 range, it returns after exactly \<open>n\<close> writes
  to the player, the \<open>i\<close>-th writing \<open>v0 - i * ((v0 - vol) / n)\<close> computed in
  binary64 arithmetic and truncated toward zero, each write followed by a sleep of
  \<open>seconds / n\<close>.  Fading from 100 to 20 in 4 steps writes 80, 60, 40, 20 in
  that order; the last write is the target up to the rounding of the floats:
  fading from 0 to 61 in 7 steps ends with 60.
\<close>

theorem smooth_fade_writes:
  assumes "current_player (mgr w) = Some h" and "0 < n"
    and "fade_in_range v0 vol n" and "truediv seconds n = Inr dt"
  shows "(\<exists>w'. set_volume w vol set_global True n seconds v0 = (w', Returned) \<and>
            trace w' = trace w @
              concat (map (\<lambda>v. [AudioSetVolume h v, Sleep dt]) (fade_targets v0 vol n))) \<and>
         fade_targets v0 vol n = map (fade_target v0 vol n) [1..n] \<and>
         length (fade_targets v0 vol n) = nat n \<and>
         fade_targets 100 20 4 = [80, 60, 40, 20] \<and>
         fade_targets 0 61 7 = [8, 17, 26, 34, 43, 52, 60]"
proof -
  have "set_volume w vol set_global True n seconds v0 =
     set_volume_finish vol set_global
       (emit (concat (map (\<lambda>v. [AudioSetVolume h v, Sleep dt]) (fade_targets v0 vol n))) w)"
    using assms by (rule set_volume_smooth_closed)
  then have 1: "\<exists>w'. set_volume w vol set_global True n seconds v0 = (w', Returned) \<and>
            trace w' = trace w @
              concat (map (\<lambda>v. [AudioSetVolume h v, Sleep dt]) (fade_targets v0 vol n))"
    by (simp add: set_volume_finish_def emit_def)
  have 2: "length (fade_targets v0 vol n) = nat n"
    using assms(2) by (simp add: fade_targets_def)
  have 3: "fade_targets 100 20 4 = [80, 60, 40, 20]"
    by code_simp
  have 4: "fade_targets 0 61 7 = [8, 17, 26, 34, 43, 52, 60]"
    by code_simp
  show ?thesis
    using 1 2 3 4 by (simp add: fade_targets_def)
qed

theorem smooth_fade_writes_witness:
  "\<exists>w'. set_volume playing_world 20 False True 4 (PyInt 2) 100 = (w', Returned) \<and>
     trace w' = [AudioSetVolume 0 80, Sleep (1 / 2), AudioSetVolume 0 60, Sleep (1 / 2),
                 AudioSetVolume 0 40, Sleep (1 / 2), AudioSetVolume 0 20, Sleep (1 / 2)]"
proof -
  have c: "current_player (mgr playing_world) = Some 0"
    by (simp add: playing_world_def)
  have pos: "(0::int) < 4"
    by simp
  have r: "fade_in_range 100 20 4"
    by code_simp
  have d: "truediv (PyInt 2) 4 = Inr (1 / 2)"
    by code_simp
  from smooth_fade_writes[OF c pos r d, of False]
  obtain w' where a: "set_volume playing_world 20 False True 4 (PyInt 2) 100 = (w', Returned)"
    and b: "trace w' = trace playing_world @
              concat (map (\<lambda>v. [AudioSetVolume 0 v, Sleep (1 / 2)])
                        (fade_targets 100 20 4))"
    and ft: "fade_targets 100 20 4 = [80, 60, 40, 20]"
    by blast
  have "trace w' = [AudioSetVolume 0 80, Sleep (1 / 2), AudioSetVolume 0 60, Sleep (1 / 2),
                 AudioSetVolume 0 40, Sleep (1 / 2), AudioSetVolume 0 20, Sleep (1 / 2)]"
    unfolding b ft by (simp add: playing_world_def)
  with a show ?thesis by blast
qed

end
